theory Spec2Isabelle
  imports Complex_Main "HOL-Library.AList"
begin

section \<open>Configuration (config.py)\<close>

text \<open>
  Python's \<open>float\<close> is modelled by \<^typ>\<open>real\<close>: arithmetic is exact, and binary
  rounding, infinities and NaN are outside the model. Decimal literals are written as
  fractions (\<open>0.03\<close> is \<open>3 / 100\<close>).
\<close>

definition INITIAL_BUDGET :: real where
  "INITIAL_BUDGET = 1000"

definition POSITION_SIZE :: real where
  "POSITION_SIZE = 10"

definition py_int :: "real \<Rightarrow> int" where
  \<comment> \<open>Python's \<open>int(x)\<close> on a float truncates toward zero.\<close>
  "py_int x = (if 0 \<le> x then \<lfloor>x\<rfloor> else \<lceil>x\<rceil>)"

definition MAX_POSITIONS :: int where
  "MAX_POSITIONS = py_int (INITIAL_BUDGET / POSITION_SIZE)"

definition SHORT_TRIGGER :: real where
  "SHORT_TRIGGER = 10 / 100"

definition BUY_TRIGGER :: real where
  "BUY_TRIGGER = - (5 / 100)"

definition TAKE_PROFIT :: real where
  "TAKE_PROFIT = 3 / 100"

definition STOP_LOSS :: real where
  "STOP_LOSS = - (5 / 100)"

definition LOOKBACK_DAYS :: nat where
  "LOOKBACK_DAYS = 7"

section \<open>Data model (portfolio.py)\<close>

text \<open>
  The dataclasses \<open>Position\<close> and \<open>Trade\<close> become records. Their wall-clock fields
  (\<open>entry_date\<close>, \<open>timestamp\<close>, both read from \<open>datetime.now()\<close>) are written once
  and never read by any operation below; they and the logger calls are left out.
  \<open>Portfolio.positions\<close> is a Python \<open>dict\<close>, kept as an association list in
  insertion order: \<open>d[k] = v\<close> is \<^const>\<open>AList.update\<close> (replace in place, or append),
  \<open>del d[k]\<close> is \<^const>\<open>AList.delete\<close>, \<open>k in d\<close> and \<open>d[k]\<close> go through
  \<^const>\<open>map_of\<close>, \<open>len(d)\<close> is \<^const>\<open>length\<close>.
\<close>

datatype PositionType = LONG | SHORT

record Position =
  ticker :: string
  position_type :: PositionType
  entry_price :: real
  quantity :: real
  stop_loss :: real
  take_profit :: real

record Trade =
  ticker :: string
  action :: string
  price :: real
  quantity :: real
  profit_loss :: real
  reason :: string

record Statistics =
  total_trades :: nat
  profitable_trades :: nat
  losing_trades :: nat
  win_rate :: real
  total_profit :: real
  cash :: real
  active_positions :: nat

record Portfolio =
  cash :: real
  positions :: "(string \<times> Position) list"
  trades :: "Trade list"

datatype error = ZeroDivisionError

definition Portfolio_init :: Portfolio where
  \<comment> \<open>\<open>Portfolio.__init__\<close> when no saved files exist.\<close>
  "Portfolio_init = \<lparr>cash = INITIAL_BUDGET, positions = [], trades = []\<rparr>"

section \<open>Portfolio operations (portfolio.py)\<close>

definition can_open_position :: "Portfolio \<Rightarrow> bool" where
  "can_open_position s \<longleftrightarrow>
     POSITION_SIZE \<le> Portfolio.cash s \<and> int (length (positions s)) < MAX_POSITIONS"

definition open_long_position :: "Portfolio \<Rightarrow> string \<Rightarrow> real \<Rightarrow> error + (bool \<times> Portfolio)" where
  "open_long_position s ticker' price' =
     (if \<not> can_open_position s then Inr (False, s)
      else if map_of (positions s) ticker' \<noteq> None then Inr (False, s)
      else if price' = 0 then Inl ZeroDivisionError
      else
        let quantity = POSITION_SIZE / price';
            stop_loss = price' * (1 + STOP_LOSS);
            take_profit = price' * (1 + TAKE_PROFIT);
            position = \<lparr>Position.ticker = ticker', position_type = LONG,
                        entry_price = price', quantity = quantity,
                        stop_loss = stop_loss, take_profit = take_profit\<rparr>;
            trade = \<lparr>Trade.ticker = ticker', action = ''BUY'', price = price',
                     quantity = quantity, profit_loss = 0,
                     reason = ''Price dropped 5% - buying opportunity''\<rparr>
        in Inr (True, s\<lparr>positions := AList.update ticker' position (positions s),
                         trades := trades s @ [trade],
                         cash := Portfolio.cash s - POSITION_SIZE\<rparr>))"

definition open_short_position :: "Portfolio \<Rightarrow> string \<Rightarrow> real \<Rightarrow> error + (bool \<times> Portfolio)" where
  "open_short_position s ticker' price' =
     (if \<not> can_open_position s then Inr (False, s)
      else if map_of (positions s) ticker' \<noteq> None then Inr (False, s)
      else if price' = 0 then Inl ZeroDivisionError
      else
        let quantity = POSITION_SIZE / price';
            stop_loss = price' * (1 - STOP_LOSS);
            take_profit = price' * (1 - TAKE_PROFIT);
            position = \<lparr>Position.ticker = ticker', position_type = SHORT,
                        entry_price = price', quantity = quantity,
                        stop_loss = stop_loss, take_profit = take_profit\<rparr>;
            trade = \<lparr>Trade.ticker = ticker', action = ''SHORT'', price = price',
                     quantity = quantity, profit_loss = 0,
                     reason = ''Price jumped 10% - shorting opportunity''\<rparr>
        in Inr (True, s\<lparr>positions := AList.update ticker' position (positions s),
                         trades := trades s @ [trade],
                         cash := Portfolio.cash s - POSITION_SIZE\<rparr>))"

definition close_position :: "Portfolio \<Rightarrow> string \<Rightarrow> real \<Rightarrow> string \<Rightarrow> bool \<times> Portfolio" where
  "close_position s ticker' current_price reason' =
     (case map_of (positions s) ticker' of
        None \<Rightarrow> (False, s)
      | Some position \<Rightarrow>
          let (profit_loss, action) =
                (if position_type position = LONG
                 then ((current_price - entry_price position) * Position.quantity position, ''SELL'')
                 else ((entry_price position - current_price) * Position.quantity position, ''COVER''));
              trade = \<lparr>Trade.ticker = ticker', action = action, price = current_price,
                       quantity = Position.quantity position, profit_loss = profit_loss,
                       reason = reason'\<rparr>
          in (True, s\<lparr>cash := Portfolio.cash s + (POSITION_SIZE + profit_loss),
                       positions := AList.delete ticker' (positions s),
                       trades := trades s @ [trade]\<rparr>))"

definition should_close_position :: "Portfolio \<Rightarrow> string \<Rightarrow> real \<Rightarrow> string option" where
  "should_close_position s ticker' current_price =
     (case map_of (positions s) ticker' of
        None \<Rightarrow> None
      | Some position \<Rightarrow>
          if position_type position = LONG then
            (if take_profit position \<le> current_price then Some ''Take profit reached''
             else if current_price \<le> stop_loss position then Some ''Stop loss triggered''
             else None)
          else
            (if current_price \<le> take_profit position then Some ''Take profit reached''
             else if stop_loss position \<le> current_price then Some ''Stop loss triggered''
             else None))"



definition get_statistics :: "Portfolio \<Rightarrow> Statistics" where
  "get_statistics s =
     (let total_trades = length (trades s);
          profitable_trades = length (filter (\<lambda>t. 0 < profit_loss t) (trades s));
          losing_trades = length (filter (\<lambda>t. profit_loss t < 0) (trades s));
          total_profit = sum_list (map profit_loss (trades s));
          win_rate = (if 0 < total_trades
                      then real profitable_trades / real total_trades else 0)
      in \<lparr>total_trades = total_trades, profitable_trades = profitable_trades,
          losing_trades = losing_trades, win_rate = win_rate,
          total_profit = total_profit, cash = Portfolio.cash s,
          active_positions = length (positions s)\<rparr>)"

section \<open>Sequences of calls on one portfolio\<close>

text \<open>
  A caller drives a \<open>Portfolio\<close> object through its three mutating methods.
  \<open>call\<close> is the object after one method call: the updated object when the method
  returns, the untouched object when it raises (the only raise, the division by a zero
  price, happens before any field is written).
\<close>

datatype operation =
    OpenLong string real
  | OpenShort string real
  | Close string real string

fun op_ticker :: "operation \<Rightarrow> string" where
  "op_ticker (OpenLong ticker' price') = ticker'"
| "op_ticker (OpenShort ticker' price') = ticker'"
| "op_ticker (Close ticker' current_price reason') = ticker'"

definition after :: "Portfolio \<Rightarrow> error + (bool \<times> Portfolio) \<Rightarrow> Portfolio" where
  "after s r = (case r of Inl e \<Rightarrow> s | Inr (ok, s') \<Rightarrow> s')"

fun call :: "Portfolio \<Rightarrow> operation \<Rightarrow> Portfolio" where
  "call s (OpenLong ticker' price') = after s (open_long_position s ticker' price')"
| "call s (OpenShort ticker' price') = after s (open_short_position s ticker' price')"
| "call s (Close ticker' current_price reason') =
     snd (close_position s ticker' current_price reason')"

definition run :: "Portfolio \<Rightarrow> operation list \<Rightarrow> Portfolio" where
  "run s ops = foldl call s ops"

section \<open>The trading engine (trading_logic.py)\<close>

text \<open>
  \<open>TradingEngine\<close> talks to the market through its \<open>DataFetcher\<close>, a network
  client. The engine is modelled for an arbitrary fetcher, given by what its methods
  answer: \<open>'df\<close> stands for the price table of one ticker. A quote is asked for many
  times in one cycle and the market may move in between, so \<open>get_current_price\<close>
  also receives the number of quotes already requested in the cycle.
\<close>

record 'df DataFetcher =
  get_sp500_companies :: "string list"
  get_stock_data :: "string list \<Rightarrow> (string \<rightharpoonup> 'df)"
  calculate_price_change :: "'df \<Rightarrow> nat \<Rightarrow> real option"
  get_current_price :: "nat \<Rightarrow> string \<Rightarrow> real option"

fun scan_loop ::
  "'df DataFetcher \<Rightarrow> Portfolio \<Rightarrow> (string \<rightharpoonup> 'df) \<Rightarrow> string list
     \<Rightarrow> string list \<times> string list \<Rightarrow> string list \<times> string list" where
  "scan_loop df s stock_data [] (long_candidates, short_candidates) =
     (long_candidates, short_candidates)"
| "scan_loop df s stock_data (ticker' # rest) (long_candidates, short_candidates) =
     (if map_of (positions s) ticker' \<noteq> None
      then scan_loop df s stock_data rest (long_candidates, short_candidates)
      else case stock_data ticker' of
        None \<Rightarrow> scan_loop df s stock_data rest (long_candidates, short_candidates)
      | Some data \<Rightarrow>
          (case calculate_price_change df data LOOKBACK_DAYS of
             None \<Rightarrow> scan_loop df s stock_data rest (long_candidates, short_candidates)
           | Some price_change \<Rightarrow>
               if SHORT_TRIGGER \<le> price_change
               then scan_loop df s stock_data rest
                      (long_candidates, short_candidates @ [ticker'])
               else if price_change \<le> BUY_TRIGGER
               then scan_loop df s stock_data rest
                      (long_candidates @ [ticker'], short_candidates)
               else scan_loop df s stock_data rest (long_candidates, short_candidates)))"

definition scan_for_opportunities ::
  "'df DataFetcher \<Rightarrow> Portfolio \<Rightarrow> string list \<Rightarrow> string list \<times> string list" where
  "scan_for_opportunities df s tickers =
     scan_loop df s (get_stock_data df tickers) tickers ([], [])"

text \<open>
  The two loops of \<open>execute_trades\<close>. Each returns the portfolio and quote count it
  reached, and the exception that ended it early, if any: \<open>break\<close> and the end of the
  list give \<open>None\<close>. \<open>if current_price:\<close> is false for \<open>None\<close> and for zero.
\<close>

fun execute_long_trades ::
  "'df DataFetcher \<Rightarrow> string list \<Rightarrow> Portfolio \<times> nat \<Rightarrow> (Portfolio \<times> nat) \<times> error option" where
  "execute_long_trades df [] (s, n) = ((s, n), None)"
| "execute_long_trades df (ticker' # rest) (s, n) =
     (if \<not> can_open_position s then ((s, n), None)
      else case get_current_price df n ticker' of
        None \<Rightarrow> execute_long_trades df rest (s, Suc n)
      | Some current_price \<Rightarrow>
          if current_price = 0 then execute_long_trades df rest (s, Suc n)
          else (case open_long_position s ticker' current_price of
                  Inl e \<Rightarrow> ((s, Suc n), Some e)
                | Inr (success, s') \<Rightarrow> execute_long_trades df rest (s', Suc n)))"

fun execute_short_trades ::
  "'df DataFetcher \<Rightarrow> string list \<Rightarrow> Portfolio \<times> nat \<Rightarrow> (Portfolio \<times> nat) \<times> error option" where
  "execute_short_trades df [] (s, n) = ((s, n), None)"
| "execute_short_trades df (ticker' # rest) (s, n) =
     (if \<not> can_open_position s then ((s, n), None)
      else case get_current_price df n ticker' of
        None \<Rightarrow> execute_short_trades df rest (s, Suc n)
      | Some current_price \<Rightarrow>
          if current_price = 0 then execute_short_trades df rest (s, Suc n)
          else (case open_short_position s ticker' current_price of
                  Inl e \<Rightarrow> ((s, Suc n), Some e)
                | Inr (success, s') \<Rightarrow> execute_short_trades df rest (s', Suc n)))"

definition execute_trades ::
  "'df DataFetcher \<Rightarrow> string list \<Rightarrow> string list \<Rightarrow> Portfolio \<times> nat
     \<Rightarrow> (Portfolio \<times> nat) \<times> error option" where
  "execute_trades df long_candidates short_candidates sn =
     (case execute_long_trades df long_candidates sn of
        (sn', Some e) \<Rightarrow> (sn', Some e)
      | (sn', None) \<Rightarrow> execute_short_trades df short_candidates sn')"

text \<open>
  \<open>check_exit_conditions\<close>: the first loop walks the keys of \<open>positions\<close> and fills
  \<open>positions_to_close\<close>; the second closes what was collected. \<open>if reason:\<close> is false
  for \<open>None\<close> and for the empty string.
\<close>

fun exit_loop ::
  "'df DataFetcher \<Rightarrow> Portfolio \<Rightarrow> string list \<Rightarrow> (string \<times> real \<times> string) list \<times> nat
     \<Rightarrow> (string \<times> real \<times> string) list \<times> nat" where
  "exit_loop df s [] (positions_to_close, n) = (positions_to_close, n)"
| "exit_loop df s (ticker' # rest) (positions_to_close, n) =
     (case get_current_price df n ticker' of
        None \<Rightarrow> exit_loop df s rest (positions_to_close, Suc n)
      | Some current_price \<Rightarrow>
          if current_price = 0 then exit_loop df s rest (positions_to_close, Suc n)
          else (case should_close_position s ticker' current_price of
                  None \<Rightarrow> exit_loop df s rest (positions_to_close, Suc n)
                | Some reason' \<Rightarrow>
                    if reason' = [] then exit_loop df s rest (positions_to_close, Suc n)
                    else exit_loop df s rest
                           (positions_to_close @ [(ticker', current_price, reason')], Suc n)))"

fun close_loop :: "Portfolio \<Rightarrow> (string \<times> real \<times> string) list \<Rightarrow> Portfolio" where
  "close_loop s [] = s"
| "close_loop s ((ticker', price', reason') # rest) =
     close_loop (snd (close_position s ticker' price' reason')) rest"

definition check_exit_conditions :: "'df DataFetcher \<Rightarrow> Portfolio \<times> nat \<Rightarrow> Portfolio \<times> nat" where
  "check_exit_conditions df sn =
     (case sn of (s, n) \<Rightarrow>
        (case exit_loop df s (map fst (positions s)) ([], n) of
           (positions_to_close, n') \<Rightarrow> (close_loop s positions_to_close, n')))"

text \<open>
  \<open>run_trading_cycle\<close> returns the portfolio held in memory when the cycle ends.
  Saving and the status log do not change it, and the \<open>except\<close> clause only logs, so an
  exception leaves the portfolio as it was when raised.
\<close>

definition run_trading_cycle :: "'df DataFetcher \<Rightarrow> Portfolio \<Rightarrow> Portfolio" where
  "run_trading_cycle df s =
     (let tickers = get_sp500_companies df;
          sn1 = check_exit_conditions df (s, 0);
          (long_candidates, short_candidates) = scan_for_opportunities df (fst sn1) tickers;
          (sn2, exc) = execute_trades df long_candidates short_candidates sn1
      in fst sn2)"

text \<open>
  A market for the examples: the universe is the single ticker \<open>X\<close>, it quotes at 90
  and its price fell by 10% over the lookback window.
\<close>

definition falling_market :: "unit DataFetcher" where
  "falling_market =
     \<lparr>get_sp500_companies = [''X''],
      get_stock_data = (\<lambda>tickers. [''X'' \<mapsto> ()]),
      calculate_price_change = (\<lambda>data days. Some (- (1 / 10))),
      get_current_price = (\<lambda>n ticker'. if ticker' = ''X'' then Some 90 else None)\<rparr>"

section \<open>Constants and single calls\<close>

lemma MAX_POSITIONS_100: "MAX_POSITIONS = 100"
  by (simp add: MAX_POSITIONS_def py_int_def INITIAL_BUDGET_def POSITION_SIZE_def)

lemmas config_values =
  MAX_POSITIONS_100 INITIAL_BUDGET_def POSITION_SIZE_def STOP_LOSS_def TAKE_PROFIT_def
  SHORT_TRIGGER_def BUY_TRIGGER_def LOOKBACK_DAYS_def

lemmas portfolio_ops =
  open_long_position_def open_short_position_def close_position_def can_open_position_def
  after_def Let_def

lemma update_fresh: "map_of al k = None \<Longrightarrow> AList.update k v al = al @ [(k, v)]"
  by (induction al) (auto split: if_splits)


lemma map_of_None_notin: "map_of al k = None \<Longrightarrow> k \<notin> fst ` set al"
  by (simp add: map_of_eq_None_iff)

lemma open_long_success:
  assumes "can_open_position s" "map_of (positions s) k = None" "p \<noteq> 0"
  shows "open_long_position s k p = Inr (True,
     s\<lparr>positions := positions s @ [(k, \<lparr>Position.ticker = k, position_type = LONG,
            entry_price = p, quantity = POSITION_SIZE / p,
            stop_loss = p * (1 + STOP_LOSS), take_profit = p * (1 + TAKE_PROFIT)\<rparr>)],
       trades := trades s @ [\<lparr>Trade.ticker = k, action = ''BUY'', price = p,
            quantity = POSITION_SIZE / p, profit_loss = 0,
            reason = ''Price dropped 5% - buying opportunity''\<rparr>],
       cash := Portfolio.cash s - POSITION_SIZE\<rparr>)"
  using assms by (simp add: open_long_position_def Let_def update_fresh)

lemma open_short_success:
  assumes "can_open_position s" "map_of (positions s) k = None" "p \<noteq> 0"
  shows "open_short_position s k p = Inr (True,
     s\<lparr>positions := positions s @ [(k, \<lparr>Position.ticker = k, position_type = SHORT,
            entry_price = p, quantity = POSITION_SIZE / p,
            stop_loss = p * (1 - STOP_LOSS), take_profit = p * (1 - TAKE_PROFIT)\<rparr>)],
       trades := trades s @ [\<lparr>Trade.ticker = k, action = ''SHORT'', price = p,
            quantity = POSITION_SIZE / p, profit_loss = 0,
            reason = ''Price jumped 10% - shorting opportunity''\<rparr>],
       cash := Portfolio.cash s - POSITION_SIZE\<rparr>)"
  using assms by (simp add: open_short_position_def Let_def update_fresh)

lemma open_long_cases:
  "open_long_position s k p = Inl ZeroDivisionError \<or>
   open_long_position s k p = Inr (False, s) \<or>
   (can_open_position s \<and> map_of (positions s) k = None \<and> p \<noteq> 0)"
  by (simp add: open_long_position_def)

lemma open_short_cases:
  "open_short_position s k p = Inl ZeroDivisionError \<or>
   open_short_position s k p = Inr (False, s) \<or>
   (can_open_position s \<and> map_of (positions s) k = None \<and> p \<noteq> 0)"
  by (simp add: open_short_position_def)

lemma close_success:
  assumes "map_of (positions s) k = Some pos"
  shows "close_position s k x r = (True,
     s\<lparr>cash := Portfolio.cash s + (POSITION_SIZE +
            (if position_type pos = LONG then (x - entry_price pos) * Position.quantity pos
             else (entry_price pos - x) * Position.quantity pos)),
       positions := AList.delete k (positions s),
       trades := trades s @ [\<lparr>Trade.ticker = k,
            action = (if position_type pos = LONG then ''SELL'' else ''COVER''), price = x,
            quantity = Position.quantity pos,
            profit_loss =
              (if position_type pos = LONG then (x - entry_price pos) * Position.quantity pos
               else (entry_price pos - x) * Position.quantity pos),
            reason = r\<rparr>]\<rparr>)"
  using assms by (simp add: close_position_def Let_def)

lemma close_failure: "map_of (positions s) k = None \<Longrightarrow> close_position s k x r = (False, s)"
  by (simp add: close_position_def)

text \<open>
  Every call either leaves the portfolio as it was, or opens a position on a ticker that
  had none (while capacity was available), or closes the position of its ticker.
\<close>

lemma call_cases:
  "call s op = s \<or>
   (can_open_position s \<and> map_of (positions s) (op_ticker op) = None \<and>
    (\<exists>pos. positions (call s op) = positions s @ [(op_ticker op, pos)]) \<and>
    (\<exists>tr. profit_loss tr = 0 \<and> trades (call s op) = trades s @ [tr]) \<and>
    Portfolio.cash (call s op) = Portfolio.cash s - POSITION_SIZE) \<or>
   (\<exists>pos tr. map_of (positions s) (op_ticker op) = Some pos \<and>
      positions (call s op) = AList.delete (op_ticker op) (positions s) \<and>
      trades (call s op) = trades s @ [tr] \<and>
      Portfolio.cash (call s op) = Portfolio.cash s + (POSITION_SIZE + profit_loss tr))"
proof (cases op)
  case (OpenLong k p)
  from open_long_cases [of s k p] show ?thesis
  proof (elim disjE)
    assume "can_open_position s \<and> map_of (positions s) k = None \<and> p \<noteq> 0"
    then show ?thesis
      by (intro disjI2 disjI1) (simp add: OpenLong after_def open_long_success)
  qed (simp_all add: OpenLong after_def)
next
  case (OpenShort k p)
  from open_short_cases [of s k p] show ?thesis
  proof (elim disjE)
    assume "can_open_position s \<and> map_of (positions s) k = None \<and> p \<noteq> 0"
    then show ?thesis
      by (intro disjI2 disjI1) (simp add: OpenShort after_def open_short_success)
  qed (simp_all add: OpenShort after_def)
next
  case (Close k x r)
  show ?thesis
  proof (cases "map_of (positions s) k")
    case None
    then show ?thesis by (simp add: Close close_failure)
  next
    case (Some pos)
    show ?thesis
      by (intro disjI2) (simp add: Close close_success [OF Some] Some)
  qed
qed

section \<open>Invariants of call sequences\<close>

lemma run_Nil: "run s [] = s"
  by (simp add: run_def)

lemma run_Cons: "run s (op # ops) = run (call s op) ops"
  by (simp add: run_def)

lemma run_snoc: "run s (ops @ [op]) = call (run s ops) op"
  by (simp add: run_def)

lemma call_keys_distinct:
  "distinct (map fst (positions s)) \<Longrightarrow> distinct (map fst (positions (call s op)))"
  using call_cases [of s op]
  by (auto simp: distinct_delete dest: map_of_None_notin)

lemma run_keys_distinct:
  "distinct (map fst (positions s)) \<Longrightarrow> distinct (map fst (positions (run s ops)))"
  by (induction ops rule: rev_induct) (simp_all add: run_snoc run_Nil call_keys_distinct)

lemma call_length:
  assumes "int (length (positions s)) \<le> MAX_POSITIONS"
  shows "int (length (positions (call s op))) \<le> MAX_POSITIONS"
proof -
  have "length (AList.delete (op_ticker op) (positions s)) \<le> length (positions s)"
    by (rule length_delete_le)
  with assms call_cases [of s op] show ?thesis
    by (auto simp: can_open_position_def)
qed

lemma run_length:
  "int (length (positions s)) \<le> MAX_POSITIONS \<Longrightarrow>
     int (length (positions (run s ops))) \<le> MAX_POSITIONS"
  by (induction ops rule: rev_induct) (simp_all add: run_snoc run_Nil call_length)





section \<open>Worked scenario: one position on X\<close>


lemma run_open_X:
  "run Portfolio_init [OpenLong ''X'' 100] =
     \<lparr>cash = 990,
       positions = [(''X'', \<lparr>Position.ticker = ''X'', position_type = LONG, entry_price = 100,
                      quantity = 1 / 10, stop_loss = 95, take_profit = 103\<rparr>)],
       trades = [\<lparr>Trade.ticker = ''X'', action = ''BUY'', price = 100, quantity = 1 / 10,
                  profit_loss = 0, reason = ''Price dropped 5% - buying opportunity''\<rparr>]\<rparr>"
  by (simp add: run_Cons run_Nil portfolio_ops Portfolio_init_def config_values)

section \<open>Claims about the portfolio\<close>



lemma run_open_X_Y:
  "run Portfolio_init [OpenLong ''X'' 100, OpenLong ''Y'' 50] =
     \<lparr>cash = 980,
       positions = [(''X'', \<lparr>Position.ticker = ''X'', position_type = LONG, entry_price = 100,
                      quantity = 1 / 10, stop_loss = 95, take_profit = 103\<rparr>),
                    (''Y'', \<lparr>Position.ticker = ''Y'', position_type = LONG, entry_price = 50,
                      quantity = 1 / 5, stop_loss = 95 / 2, take_profit = 103 / 2\<rparr>)],
       trades = [\<lparr>Trade.ticker = ''X'', action = ''BUY'', price = 100, quantity = 1 / 10,
                  profit_loss = 0, reason = ''Price dropped 5% - buying opportunity''\<rparr>,
                 \<lparr>Trade.ticker = ''Y'', action = ''BUY'', price = 50, quantity = 1 / 5,
                  profit_loss = 0, reason = ''Price dropped 5% - buying opportunity''\<rparr>]\<rparr>"
  using run_snoc [of Portfolio_init "[OpenLong ''X'' 100]" "OpenLong ''Y'' 50"]
  by (simp add: run_open_X) (simp add: portfolio_ops config_values)




text \<open>
  C2. Opening on a ticker that already has a position returns \<open>False\<close> from both
  methods and hands back the portfolio untouched, whatever the price; and the keys of
  \<open>positions\<close> stay pairwise different along every sequence of calls, so no ticker is
  ever held twice.
\<close>

theorem open_held_ticker_fails:
  "(map_of (positions s) ticker' \<noteq> None \<longrightarrow>
      open_long_position s ticker' price' = Inr (False, s) \<and>
      open_short_position s ticker' price' = Inr (False, s)) \<and>
   (distinct (map fst (positions s)) \<longrightarrow> distinct (map fst (positions (run s ops))))"
  by (simp add: open_long_position_def open_short_position_def run_keys_distinct)

theorem open_held_ticker_fails_witness:
  "map_of (positions (run Portfolio_init [OpenLong ''X'' 100])) ''X'' \<noteq> None \<and>
   open_long_position (run Portfolio_init [OpenLong ''X'' 100]) ''X'' 90 =
     Inr (False, run Portfolio_init [OpenLong ''X'' 100]) \<and>
   open_short_position (run Portfolio_init [OpenLong ''X'' 100]) ''X'' 90 =
     Inr (False, run Portfolio_init [OpenLong ''X'' 100]) \<and>
   distinct (map fst (positions Portfolio_init)) \<and>
   distinct (map fst (positions (run Portfolio_init [OpenLong ''X'' 100, OpenLong ''Y'' 50])))"
proof -
  have held: "map_of (positions (run Portfolio_init [OpenLong ''X'' 100])) ''X'' \<noteq> None"
    by (simp add: run_open_X)
  have keys: "distinct (map fst (positions Portfolio_init))"
    by (simp add: Portfolio_init_def)
  from open_held_ticker_fails [of "run Portfolio_init [OpenLong ''X'' 100]" "''X''" 90]
    open_held_ticker_fails [of Portfolio_init _ _ "[OpenLong ''X'' 100, OpenLong ''Y'' 50]"]
    held keys
  show ?thesis by blast
qed

text \<open>
  C3. \<open>can_open_position\<close> holds exactly when the cash covers \<open>POSITION_SIZE\<close> (10) and
  fewer than \<open>MAX_POSITIONS\<close> (100) positions are open; and a portfolio with at most
  \<open>MAX_POSITIONS\<close> open positions still has at most that many after any sequence of
  calls.
\<close>

theorem capacity_bound:
  "POSITION_SIZE = 10 \<and> MAX_POSITIONS = 100 \<and>
   (can_open_position s \<longleftrightarrow>
      POSITION_SIZE \<le> Portfolio.cash s \<and> int (length (positions s)) < MAX_POSITIONS) \<and>
   (int (length (positions s)) \<le> MAX_POSITIONS \<longrightarrow>
      int (length (positions (run s ops))) \<le> MAX_POSITIONS)"
  by (simp add: run_length can_open_position_def) (simp add: config_values)

theorem capacity_bound_witness:
  "int (length (positions Portfolio_init)) \<le> MAX_POSITIONS \<and>
   int (length (positions (run Portfolio_init [OpenLong ''X'' 100, OpenLong ''Y'' 50])))
     \<le> MAX_POSITIONS \<and>
   length (positions (run Portfolio_init [OpenLong ''X'' 100, OpenLong ''Y'' 50])) = 2"
proof -
  have "int (length (positions Portfolio_init)) \<le> MAX_POSITIONS"
    by (simp add: Portfolio_init_def config_values)
  with capacity_bound [of Portfolio_init "[OpenLong ''X'' 100, OpenLong ''Y'' 50]"]
  show ?thesis by (simp add: run_open_X_Y)
qed

text \<open>
  C4. For a ticker with an open position, \<open>should_close_position\<close> answers
  \<open>Take profit reached\<close> exactly when the price has reached the take-profit level
  (at or above it for LONG, at or below it for SHORT), otherwise
  \<open>Stop loss triggered\<close> exactly when it has reached the stop-loss level (at or below
  for LONG, at or above for SHORT), otherwise nothing. Take-profit is tested first, so it
  wins when both levels are reached, and a price strictly between the two levels never
  triggers an exit.
\<close>

theorem should_close_position_cases:
  assumes "map_of (positions s) ticker' = Some position"
  shows "should_close_position s ticker' current_price =
     (if (position_type position = LONG \<and> take_profit position \<le> current_price) \<or>
         (position_type position = SHORT \<and> current_price \<le> take_profit position)
      then Some ''Take profit reached''
      else if (position_type position = LONG \<and> current_price \<le> stop_loss position) \<or>
              (position_type position = SHORT \<and> stop_loss position \<le> current_price)
      then Some ''Stop loss triggered''
      else None) \<and>
     ((position_type position = LONG \<and> stop_loss position < current_price
          \<and> current_price < take_profit position) \<or>
      (position_type position = SHORT \<and> take_profit position < current_price
          \<and> current_price < stop_loss position)
      \<longrightarrow> should_close_position s ticker' current_price = None)"
  using assms by (cases "position_type position") (auto simp: should_close_position_def)

theorem should_close_position_cases_witness:
  "map_of (positions (run Portfolio_init [OpenLong ''X'' 100])) ''X'' =
     Some \<lparr>Position.ticker = ''X'', position_type = LONG, entry_price = 100,
            quantity = 1 / 10, stop_loss = 95, take_profit = 103\<rparr> \<and>
   should_close_position (run Portfolio_init [OpenLong ''X'' 100]) ''X'' 103 =
     Some ''Take profit reached'' \<and>
   should_close_position (run Portfolio_init [OpenLong ''X'' 100]) ''X'' 95 =
     Some ''Stop loss triggered'' \<and>
   should_close_position (run Portfolio_init [OpenLong ''X'' 100]) ''X'' 100 = None"
proof -
  have held: "map_of (positions (run Portfolio_init [OpenLong ''X'' 100])) ''X'' =
     Some \<lparr>Position.ticker = ''X'', position_type = LONG, entry_price = 100,
            quantity = 1 / 10, stop_loss = 95, take_profit = 103\<rparr>"
    by (simp add: run_open_X)
  from should_close_position_cases [OF held, of 103]
    should_close_position_cases [OF held, of 95]
    should_close_position_cases [OF held, of 100] held
  show ?thesis by simp
qed






text \<open>
  C7. \<open>get_statistics\<close> reports the length of the whole trade list as \<open>total_trades\<close>,
  the number of trades with positive profit and loss as \<open>profitable_trades\<close>, the number
  with negative profit and loss as \<open>losing_trades\<close>; the trades with profit and loss 0
  make up the rest of the total and are in neither count; \<open>win_rate\<close> is
  \<open>profitable_trades / total_trades\<close> when there is a trade and 0 when there is none.
\<close>

theorem get_statistics_counts:
  "total_trades (get_statistics s) = length (trades s) \<and>
   profitable_trades (get_statistics s) =
     card {i. i < length (trades s) \<and> 0 < profit_loss (trades s ! i)} \<and>
   losing_trades (get_statistics s) =
     card {i. i < length (trades s) \<and> profit_loss (trades s ! i) < 0} \<and>
   profitable_trades (get_statistics s) + losing_trades (get_statistics s)
     + card {i. i < length (trades s) \<and> profit_loss (trades s ! i) = 0}
     = total_trades (get_statistics s) \<and>
   win_rate (get_statistics s) =
     (if 0 < total_trades (get_statistics s)
      then real (profitable_trades (get_statistics s)) / real (total_trades (get_statistics s))
      else 0)"
proof -
  have three: "length (filter (\<lambda>t. 0 < profit_loss t) ts)
      + length (filter (\<lambda>t. profit_loss t < 0) ts)
      + length (filter (\<lambda>t. profit_loss t = 0) ts) = length ts" for ts :: "Trade list"
    by (induction ts) auto
  show ?thesis
    using three [of "trades s"]
    by (simp add: get_statistics_def Let_def length_filter_conv_card)
qed





section \<open>The trading cycle\<close>

lemma close_position_trades:
  "trades (snd (close_position s k x r)) = trades s \<or>
   (\<exists>tr. trades (snd (close_position s k x r)) = trades s @ [tr] \<and>
      (action tr = ''SELL'' \<or> action tr = ''COVER''))"
proof (cases "map_of (positions s) k")
  case None
  then show ?thesis by (simp add: close_failure)
next
  case (Some pos)
  show ?thesis by (simp add: close_success [OF Some])
qed

lemma close_loop_trades:
  "\<exists>closes. trades (close_loop s to_close) = trades s @ closes \<and>
     (\<forall>c \<in> set closes. action c = ''SELL'' \<or> action c = ''COVER'')"
proof (induction s to_close rule: close_loop.induct)
  case (1 s)
  show ?case by simp
next
  case (2 s k x r rest)
  then obtain closes where rest:
    "trades (close_loop (snd (close_position s k x r)) rest) =
       trades (snd (close_position s k x r)) @ closes"
    "\<forall>c \<in> set closes. action c = ''SELL'' \<or> action c = ''COVER''"
    by blast
  from close_position_trades [of s k x r] show ?case
  proof
    assume "trades (snd (close_position s k x r)) = trades s"
    with rest show ?thesis by auto
  next
    assume "\<exists>tr. trades (snd (close_position s k x r)) = trades s @ [tr] \<and>
      (action tr = ''SELL'' \<or> action tr = ''COVER'')"
    then obtain tr where "trades (snd (close_position s k x r)) = trades s @ [tr]"
      "action tr = ''SELL'' \<or> action tr = ''COVER''" by blast
    with rest show ?thesis
      by (intro exI [of _ "tr # closes"]) auto
  qed
qed

lemma scan_loop_candidates:
  "scan_loop df s stock_data tickers (longs0, shorts0) = (longs, shorts) \<Longrightarrow>
     set longs \<subseteq> set longs0 \<union> {k. map_of (positions s) k = None} \<and>
     set shorts \<subseteq> set shorts0 \<union> {k. map_of (positions s) k = None}"
proof (induction tickers arbitrary: longs0 shorts0)
  case Nil
  then show ?case by auto
next
  case (Cons k rest)
  have step: "set longs \<subseteq> set longs1 \<union> {k. map_of (positions s) k = None} \<and>
     set shorts \<subseteq> set shorts1 \<union> {k. map_of (positions s) k = None}"
    if "scan_loop df s stock_data rest (longs1, shorts1) = (longs, shorts)" for longs1 shorts1
    using that by (rule Cons.IH)
  show ?case
  proof (cases "map_of (positions s) k = None")
    case False
    with Cons.prems show ?thesis by (auto dest: step)
  next
    case True
    with Cons.prems show ?thesis
      by (auto split: option.splits if_splits dest!: step)
  qed
qed


lemma open_long_effect:
  assumes "open_long_position s k p = Inr (ok, s1)"
  shows "(trades s1 = trades s \<or>
          (\<exists>tr. trades s1 = trades s @ [tr] \<and> action tr = ''BUY'' \<and> Trade.ticker tr = k)) \<and>
         (\<forall>k'. k' \<noteq> k \<longrightarrow> map_of (positions s1) k' = map_of (positions s) k')"
  using open_long_cases [of s k p] assms
  by (auto simp: open_long_success map_add_def split: option.splits)

lemma open_short_effect:
  assumes "open_short_position s k p = Inr (ok, s1)"
  shows "(trades s1 = trades s \<or>
          (\<exists>tr. trades s1 = trades s @ [tr] \<and> action tr = ''SHORT'' \<and> Trade.ticker tr = k)) \<and>
         (\<forall>k'. k' \<noteq> k \<longrightarrow> map_of (positions s1) k' = map_of (positions s) k')"
  using open_short_cases [of s k p] assms
  by (auto simp: open_short_success map_add_def split: option.splits)

lemma execute_long_trades_Cons:
  "execute_long_trades df (k # rest) (s, n) = ((s, n), None) \<or>
   (\<exists>e. execute_long_trades df (k # rest) (s, n) = ((s, Suc n), Some e)) \<or>
   execute_long_trades df (k # rest) (s, n) = execute_long_trades df rest (s, Suc n) \<or>
   (\<exists>p ok s1. open_long_position s k p = Inr (ok, s1) \<and>
      execute_long_trades df (k # rest) (s, n) = execute_long_trades df rest (s1, Suc n))"
  by (auto split: option.splits sum.splits)

lemma execute_short_trades_Cons:
  "execute_short_trades df (k # rest) (s, n) = ((s, n), None) \<or>
   (\<exists>e. execute_short_trades df (k # rest) (s, n) = ((s, Suc n), Some e)) \<or>
   execute_short_trades df (k # rest) (s, n) = execute_short_trades df rest (s, Suc n) \<or>
   (\<exists>p ok s1. open_short_position s k p = Inr (ok, s1) \<and>
      execute_short_trades df (k # rest) (s, n) = execute_short_trades df rest (s1, Suc n))"
  by (auto split: option.splits sum.splits)

lemma execute_long_trades_effect:
  "execute_long_trades df candidates (s, n) = ((s', n'), exc) \<Longrightarrow>
     (\<exists>opens. trades s' = trades s @ opens \<and>
        (\<forall>t \<in> set opens. action t = ''BUY'' \<and> Trade.ticker t \<in> set candidates)) \<and>
     (\<forall>k. k \<notin> set candidates \<longrightarrow> map_of (positions s') k = map_of (positions s) k)"
proof (induction candidates arbitrary: s n)
  case Nil
  then show ?case by simp
next
  case (Cons k rest)
  from execute_long_trades_Cons [of df k rest s n] show ?case
  proof (elim disjE exE conjE)
    assume "execute_long_trades df (k # rest) (s, n) = ((s, n), None)"
    with Cons.prems show ?thesis by simp
  next
    fix e assume "execute_long_trades df (k # rest) (s, n) = ((s, Suc n), Some e)"
    with Cons.prems show ?thesis by simp
  next
    assume "execute_long_trades df (k # rest) (s, n) = execute_long_trades df rest (s, Suc n)"
    with Cons.prems have "execute_long_trades df rest (s, Suc n) = ((s', n'), exc)" by simp
    from Cons.IH [OF this] show ?thesis by auto
  next
    fix p ok s1
    assume opened: "open_long_position s k p = Inr (ok, s1)"
      and "execute_long_trades df (k # rest) (s, n) = execute_long_trades df rest (s1, Suc n)"
    with Cons.prems have "execute_long_trades df rest (s1, Suc n) = ((s', n'), exc)" by simp
    from Cons.IH [OF this] obtain opens where rest:
      "trades s' = trades s1 @ opens"
      "\<forall>t \<in> set opens. action t = ''BUY'' \<and> Trade.ticker t \<in> set rest"
      "\<forall>k. k \<notin> set rest \<longrightarrow> map_of (positions s') k = map_of (positions s1) k"
      by blast
    from open_long_effect [OF opened]
    have pos: "\<forall>k'. k' \<noteq> k \<longrightarrow> map_of (positions s1) k' = map_of (positions s) k'"
      and tr: "trades s1 = trades s \<or>
          (\<exists>tr. trades s1 = trades s @ [tr] \<and> action tr = ''BUY'' \<and> Trade.ticker tr = k)"
      by blast+
    from tr have "\<exists>opens. trades s' = trades s @ opens \<and>
        (\<forall>t \<in> set opens. action t = ''BUY'' \<and> Trade.ticker t \<in> set (k # rest))"
    proof
      assume "trades s1 = trades s"
      with rest show ?thesis by auto
    next
      assume "\<exists>tr. trades s1 = trades s @ [tr] \<and> action tr = ''BUY'' \<and> Trade.ticker tr = k"
      then obtain tr where "trades s1 = trades s @ [tr]" "action tr = ''BUY''" "Trade.ticker tr = k"
        by blast
      with rest show ?thesis by (intro exI [of _ "tr # opens"]) auto
    qed
    moreover from rest(3) pos
    have "\<forall>k'. k' \<notin> set (k # rest) \<longrightarrow> map_of (positions s') k' = map_of (positions s) k'"
      by simp
    ultimately show ?thesis by blast
  qed
qed

lemma execute_short_trades_effect:
  "execute_short_trades df candidates (s, n) = ((s', n'), exc) \<Longrightarrow>
     (\<exists>opens. trades s' = trades s @ opens \<and>
        (\<forall>t \<in> set opens. action t = ''SHORT'' \<and> Trade.ticker t \<in> set candidates)) \<and>
     (\<forall>k. k \<notin> set candidates \<longrightarrow> map_of (positions s') k = map_of (positions s) k)"
proof (induction candidates arbitrary: s n)
  case Nil
  then show ?case by simp
next
  case (Cons k rest)
  from execute_short_trades_Cons [of df k rest s n] show ?case
  proof (elim disjE exE conjE)
    assume "execute_short_trades df (k # rest) (s, n) = ((s, n), None)"
    with Cons.prems show ?thesis by simp
  next
    fix e assume "execute_short_trades df (k # rest) (s, n) = ((s, Suc n), Some e)"
    with Cons.prems show ?thesis by simp
  next
    assume "execute_short_trades df (k # rest) (s, n) = execute_short_trades df rest (s, Suc n)"
    with Cons.prems have "execute_short_trades df rest (s, Suc n) = ((s', n'), exc)" by simp
    from Cons.IH [OF this] show ?thesis by auto
  next
    fix p ok s1
    assume opened: "open_short_position s k p = Inr (ok, s1)"
      and "execute_short_trades df (k # rest) (s, n) = execute_short_trades df rest (s1, Suc n)"
    with Cons.prems have "execute_short_trades df rest (s1, Suc n) = ((s', n'), exc)" by simp
    from Cons.IH [OF this] obtain opens where rest:
      "trades s' = trades s1 @ opens"
      "\<forall>t \<in> set opens. action t = ''SHORT'' \<and> Trade.ticker t \<in> set rest"
      "\<forall>k. k \<notin> set rest \<longrightarrow> map_of (positions s') k = map_of (positions s1) k"
      by blast
    from open_short_effect [OF opened]
    have pos: "\<forall>k'. k' \<noteq> k \<longrightarrow> map_of (positions s1) k' = map_of (positions s) k'"
      and tr: "trades s1 = trades s \<or>
          (\<exists>tr. trades s1 = trades s @ [tr] \<and> action tr = ''SHORT'' \<and> Trade.ticker tr = k)"
      by blast+
    from tr have "\<exists>opens. trades s' = trades s @ opens \<and>
        (\<forall>t \<in> set opens. action t = ''SHORT'' \<and> Trade.ticker t \<in> set (k # rest))"
    proof
      assume "trades s1 = trades s"
      with rest show ?thesis by auto
    next
      assume "\<exists>tr. trades s1 = trades s @ [tr] \<and> action tr = ''SHORT'' \<and> Trade.ticker tr = k"
      then obtain tr where "trades s1 = trades s @ [tr]" "action tr = ''SHORT''" "Trade.ticker tr = k"
        by blast
      with rest show ?thesis by (intro exI [of _ "tr # opens"]) auto
    qed
    moreover from rest(3) pos
    have "\<forall>k'. k' \<notin> set (k # rest) \<longrightarrow> map_of (positions s') k' = map_of (positions s) k'"
      by simp
    ultimately show ?thesis by blast
  qed
qed


lemma execute_trades_effect:
  assumes "execute_trades df longs shorts (s, n) = ((s', n'), exc)"
  shows "(\<exists>opens. trades s' = trades s @ opens \<and>
            (\<forall>t \<in> set opens. (action t = ''BUY'' \<or> action t = ''SHORT'') \<and>
               Trade.ticker t \<in> set longs \<union> set shorts)) \<and>
         (\<forall>k. k \<notin> set longs \<union> set shorts \<longrightarrow>
            map_of (positions s') k = map_of (positions s) k)"
proof -
  obtain sl nl el where long: "execute_long_trades df longs (s, n) = ((sl, nl), el)"
    by (metis surj_pair)
  from execute_long_trades_effect [OF long] obtain opens_long where l:
    "trades sl = trades s @ opens_long"
    "\<forall>t \<in> set opens_long. action t = ''BUY'' \<and> Trade.ticker t \<in> set longs"
    "\<forall>k. k \<notin> set longs \<longrightarrow> map_of (positions sl) k = map_of (positions s) k"
    by blast
  show ?thesis
  proof (cases el)
    case (Some e)
    with assms long have "s' = sl" by (simp add: execute_trades_def)
    with l show ?thesis by auto
  next
    case None
    with assms long have short: "execute_short_trades df shorts (sl, nl) = ((s', n'), exc)"
      by (simp add: execute_trades_def)
    from execute_short_trades_effect [OF short] obtain opens_short where sh:
      "trades s' = trades sl @ opens_short"
      "\<forall>t \<in> set opens_short. action t = ''SHORT'' \<and> Trade.ticker t \<in> set shorts"
      "\<forall>k. k \<notin> set shorts \<longrightarrow> map_of (positions s') k = map_of (positions sl) k"
      by blast
    from l sh have "trades s' = trades s @ (opens_long @ opens_short) \<and>
        (\<forall>t \<in> set (opens_long @ opens_short). (action t = ''BUY'' \<or> action t = ''SHORT'') \<and>
               Trade.ticker t \<in> set longs \<union> set shorts)"
      by auto
    moreover from l(3) sh(3)
    have "\<forall>k. k \<notin> set longs \<union> set shorts \<longrightarrow> map_of (positions s') k = map_of (positions s) k"
      by simp
    ultimately show ?thesis by blast
  qed
qed

text \<open>
  C9, as amended. In one trading cycle the exit checks come first: the trades the cycle
  records are the closing trades of the exit checks followed by the opening trades of the
  entries, every new position is opened on a ticker that holds no position once the exit
  checks are done, and a position that survives the exit checks is still there, unchanged,
  when the cycle ends. (A ticker that an exit trigger closed holds no position any more,
  so it is scanned and can be entered again in the same cycle.)
\<close>

theorem cycle_exits_before_entries:
  "\<exists>closes opens.
     trades (fst (check_exit_conditions df (s, 0))) = trades s @ closes \<and>
     trades (run_trading_cycle df s) = trades s @ closes @ opens \<and>
     (\<forall>t \<in> set closes. action t = ''SELL'' \<or> action t = ''COVER'') \<and>
     (\<forall>t \<in> set opens. (action t = ''BUY'' \<or> action t = ''SHORT'') \<and>
        map_of (positions (fst (check_exit_conditions df (s, 0)))) (Trade.ticker t) = None) \<and>
     (\<forall>k position.
        map_of (positions (fst (check_exit_conditions df (s, 0)))) k = Some position \<longrightarrow>
        map_of (positions (run_trading_cycle df s)) k = Some position)"
proof -
  obtain s1 n1 where exit: "check_exit_conditions df (s, 0) = (s1, n1)"
    by (metis surj_pair)
  obtain longs shorts where scan:
    "scan_for_opportunities df s1 (get_sp500_companies df) = (longs, shorts)"
    by (metis surj_pair)
  obtain s2 n2 exc where exe: "execute_trades df longs shorts (s1, n1) = ((s2, n2), exc)"
    by (metis surj_pair)
  have cycle: "run_trading_cycle df s = s2"
    by (simp add: run_trading_cycle_def exit scan exe)
  from exit obtain to_close where "s1 = close_loop s to_close"
    by (auto simp: check_exit_conditions_def split: prod.splits)
  with close_loop_trades [of s to_close] obtain closes where c:
    "trades s1 = trades s @ closes"
    "\<forall>t \<in> set closes. action t = ''SELL'' \<or> action t = ''COVER''"
    by blast
  from scan scan_loop_candidates [of df s1 _ _ "[]" "[]" longs shorts]
  have free: "\<forall>k \<in> set longs \<union> set shorts. map_of (positions s1) k = None"
    by (auto simp: scan_for_opportunities_def)
  from execute_trades_effect [OF exe] obtain opens where e:
    "trades s2 = trades s1 @ opens"
    "\<forall>t \<in> set opens. (action t = ''BUY'' \<or> action t = ''SHORT'') \<and>
               Trade.ticker t \<in> set longs \<union> set shorts"
    "\<forall>k. k \<notin> set longs \<union> set shorts \<longrightarrow> map_of (positions s2) k = map_of (positions s1) k"
    by blast
  have kept: "map_of (positions s2) k = Some position"
    if "map_of (positions s1) k = Some position" for k position
  proof -
    from that free have "k \<notin> set longs \<union> set shorts" by auto
    with e(3) that show ?thesis by simp
  qed
  have "trades s1 = trades s @ closes \<and> trades s2 = trades s @ closes @ opens \<and>
     (\<forall>t \<in> set closes. action t = ''SELL'' \<or> action t = ''COVER'') \<and>
     (\<forall>t \<in> set opens. (action t = ''BUY'' \<or> action t = ''SHORT'') \<and>
        map_of (positions s1) (Trade.ticker t) = None) \<and>
     (\<forall>k position. map_of (positions s1) k = Some position \<longrightarrow>
        map_of (positions s2) k = Some position)"
    using c e(1,2) free kept by auto
  then show ?thesis
    unfolding cycle exit fst_conv by blast
qed

lemma exit_X_falling:
  "check_exit_conditions falling_market (run Portfolio_init [OpenLong ''X'' 100], 0) =
     (\<lparr>cash = 999, positions = [],
       trades = [\<lparr>Trade.ticker = ''X'', action = ''BUY'', price = 100, quantity = 1 / 10,
                  profit_loss = 0, reason = ''Price dropped 5% - buying opportunity''\<rparr>,
                 \<lparr>Trade.ticker = ''X'', action = ''SELL'', price = 90, quantity = 1 / 10,
                  profit_loss = - 1, reason = ''Stop loss triggered''\<rparr>]\<rparr>, 1)"
  by (simp add: run_open_X check_exit_conditions_def falling_market_def
        should_close_position_def portfolio_ops config_values)

lemma cycle_X_falling:
  "run_trading_cycle falling_market (run Portfolio_init [OpenLong ''X'' 100]) =
     \<lparr>cash = 989,
       positions = [(''X'', \<lparr>Position.ticker = ''X'', position_type = LONG, entry_price = 90,
                      quantity = 1 / 9, stop_loss = 171 / 2, take_profit = 927 / 10\<rparr>)],
       trades = [\<lparr>Trade.ticker = ''X'', action = ''BUY'', price = 100, quantity = 1 / 10,
                  profit_loss = 0, reason = ''Price dropped 5% - buying opportunity''\<rparr>,
                 \<lparr>Trade.ticker = ''X'', action = ''SELL'', price = 90, quantity = 1 / 10,
                  profit_loss = - 1, reason = ''Stop loss triggered''\<rparr>,
                 \<lparr>Trade.ticker = ''X'', action = ''BUY'', price = 90, quantity = 1 / 9,
                  profit_loss = 0, reason = ''Price dropped 5% - buying opportunity''\<rparr>]\<rparr>"
  unfolding run_trading_cycle_def exit_X_falling
  by (simp add: scan_for_opportunities_def execute_trades_def falling_market_def
        portfolio_ops config_values)


theorem cycle_exits_before_entries_witness:
  "\<exists>closes opens.
     trades (run_trading_cycle falling_market (run Portfolio_init [OpenLong ''X'' 100])) =
       trades (run Portfolio_init [OpenLong ''X'' 100]) @ closes @ opens \<and>
     closes = [\<lparr>Trade.ticker = ''X'', action = ''SELL'', price = 90, quantity = 1 / 10,
                 profit_loss = - 1, reason = ''Stop loss triggered''\<rparr>] \<and>
     opens = [\<lparr>Trade.ticker = ''X'', action = ''BUY'', price = 90, quantity = 1 / 9,
                profit_loss = 0, reason = ''Price dropped 5% - buying opportunity''\<rparr>] \<and>
     map_of (positions (fst (check_exit_conditions falling_market
        (run Portfolio_init [OpenLong ''X'' 100], 0)))) ''X'' = None"
proof -
  from cycle_exits_before_entries [of falling_market "run Portfolio_init [OpenLong ''X'' 100]"]
  obtain closes opens where
    "trades (fst (check_exit_conditions falling_market
        (run Portfolio_init [OpenLong ''X'' 100], 0))) =
       trades (run Portfolio_init [OpenLong ''X'' 100]) @ closes"
    "trades (run_trading_cycle falling_market (run Portfolio_init [OpenLong ''X'' 100])) =
       trades (run Portfolio_init [OpenLong ''X'' 100]) @ closes @ opens"
    by blast
  then show ?thesis
    by (simp add: exit_X_falling cycle_X_falling) (simp add: run_open_X)
qed

theorem same_cycle_reentry_counterexample:
  "map_of (positions (run Portfolio_init [OpenLong ''X'' 100])) ''X'' =
     Some \<lparr>Position.ticker = ''X'', position_type = LONG, entry_price = 100,
            quantity = 1 / 10, stop_loss = 95, take_profit = 103\<rparr> \<and>
   get_current_price falling_market 0 ''X'' = Some 90 \<and>
   should_close_position (run Portfolio_init [OpenLong ''X'' 100]) ''X'' 90 =
     Some ''Stop loss triggered'' \<and>
   check_exit_conditions falling_market (run Portfolio_init [OpenLong ''X'' 100], 0) =
     (\<lparr>cash = 999, positions = [],
       trades = [\<lparr>Trade.ticker = ''X'', action = ''BUY'', price = 100, quantity = 1 / 10,
                  profit_loss = 0, reason = ''Price dropped 5% - buying opportunity''\<rparr>,
                 \<lparr>Trade.ticker = ''X'', action = ''SELL'', price = 90, quantity = 1 / 10,
                  profit_loss = - 1, reason = ''Stop loss triggered''\<rparr>]\<rparr>, 1) \<and>
   run_trading_cycle falling_market (run Portfolio_init [OpenLong ''X'' 100]) =
     \<lparr>cash = 989,
       positions = [(''X'', \<lparr>Position.ticker = ''X'', position_type = LONG, entry_price = 90,
                      quantity = 1 / 9, stop_loss = 171 / 2, take_profit = 927 / 10\<rparr>)],
       trades = [\<lparr>Trade.ticker = ''X'', action = ''BUY'', price = 100, quantity = 1 / 10,
                  profit_loss = 0, reason = ''Price dropped 5% - buying opportunity''\<rparr>,
                 \<lparr>Trade.ticker = ''X'', action = ''SELL'', price = 90, quantity = 1 / 10,
                  profit_loss = - 1, reason = ''Stop loss triggered''\<rparr>,
                 \<lparr>Trade.ticker = ''X'', action = ''BUY'', price = 90, quantity = 1 / 9,
                  profit_loss = 0, reason = ''Price dropped 5% - buying opportunity''\<rparr>]\<rparr>"
  by (simp add: exit_X_falling cycle_X_falling)
     (simp add: run_open_X should_close_position_def falling_market_def)

end
